theory Spec2Isabelle
  imports Main
begin

section \<open>Values as the validator sees them through reflection\<close>

text \<open>
  The validator (\<^verbatim>\<open>src/validator.go\<close>) inspects its argument through Go's
  \<^verbatim>\<open>reflect\<close> package only: it asks for the kind of a value, the text of a string, the
  number of an int, the length and the elements of a slice or array, the kind of their
  element type, the pointee of a pointer, and the fields of a struct with their
  \<^verbatim>\<open>reflect.StructField\<close> descriptors.

  \<open>kind\<close> is \<^verbatim>\<open>reflect.Kind\<close>. The six kinds the code names in a \<^verbatim>\<open>case\<close> are
  constructors of their own; the twenty-one kinds it never names are \<open>Other k\<close>.
  \<^verbatim>\<open>reflect.Int\<close> is written \<open>IntK\<close>.
\<close>

datatype other_kind =
    Invalid | Bool | Int8 | Int16 | Int32 | Int64
  | Uint | Uint8 | Uint16 | Uint32 | Uint64 | Uintptr
  | Float32 | Float64 | Complex64 | Complex128
  | Chan | Func | Interface | Map | UnsafePointer

datatype kind = String | IntK | Ptr | Struct | Slice | Array | Other other_kind

text \<open>
  \<^verbatim>\<open>reflect.StructField\<close>, with the fields the code reads. \<open>PkgPath\<close> is empty for an
  exported field; \<open>Tag\<close> holds the key/value pairs of the struct tag.
\<close>

record StructField =
  Name :: string
  PkgPath :: string
  Tag :: "(string \<times> string) list"
  Anonymous :: bool

text \<open>
  \<^verbatim>\<open>reflect.Value\<close>. A Go string is a sequence of bytes (\<open>string\<close>, a list of 8-bit
  \<open>char\<close>s). \<open>VInt\<close> holds what \<^verbatim>\<open>value.Int()\<close> returns. \<open>VPtr None\<close> is a nil pointer.
  A slice or an array carries the kind of its element type, which it has even when it is
  empty or nil, and its elements in index order; a struct its fields in declaration order.
  Values are finite trees: a pointer structure with a cycle is not a value of this type.
\<close>

datatype val =
    VString string
  | VInt int
  | VPtr "val option"
  | VStruct "(StructField \<times> val) list"
  | VSlice kind "val list"
  | VArray kind "val list"
  | VOther other_kind

fun Kind :: "val \<Rightarrow> kind" where
  "Kind (VString s) = String"
| "Kind (VInt i) = IntK"
| "Kind (VPtr p) = Ptr"
| "Kind (VStruct fs) = Struct"
| "Kind (VSlice ek xs) = Slice"
| "Kind (VArray ek xs) = Array"
| "Kind (VOther k) = Other k"

text \<open>\<^verbatim>\<open>value.Type().Elem().Kind()\<close>, which the code asks of slices and arrays only.\<close>

fun ElemKind :: "val \<Rightarrow> kind option" where
  "ElemKind (VSlice ek xs) = Some ek"
| "ElemKind (VArray ek xs) = Some ek"
| "ElemKind v = None"

text \<open>\<^verbatim>\<open>fieldDefinition.Tag.Get(key)\<close>: the value of the key, the empty string without it.\<close>

definition Tag_Get :: "StructField \<Rightarrow> string \<Rightarrow> string" where
  "Tag_Get fd key = (case map_of (Tag fd) key of None \<Rightarrow> [] | Some v \<Rightarrow> v)"

section \<open>Errors\<close>

text \<open>
  The three sentinels of the package, and \<open>New msg\<close> for an error made on the spot by
  \<^verbatim>\<open>errors.New(msg)\<close>. A run-time panic is not an error value: it is the left summand of
  the result of every function that can reach one.
\<close>

datatype error =
    ErrNotStruct
  | ErrInvalidValidatorSyntax
  | ErrValidateForUnexportedFields
  | New string

datatype panic = IndexOutOfRange

record ValidationError =
  Err :: error

type_synonym ValidationErrors = "ValidationError list"

text \<open>
  \<^verbatim>\<open>ValidationErrors.Is\<close>. None of the errors wraps another one, so \<^verbatim>\<open>errors.Is\<close> is
  equality with the target; the targets of interest are the sentinels.
\<close>

definition Is :: "ValidationErrors \<Rightarrow> error \<Rightarrow> bool" where
  "Is v target = list_ex (\<lambda>verr. Err verr = target) v"

section \<open>Counting runes: \<^verbatim>\<open>utf8.RuneCountInString\<close>\<close>

text \<open>
  The rule library measures text with \<^verbatim>\<open>utf8.RuneCountInString\<close> of Go's standard
  library. The model follows the library's loop: \<open>first\<close> is its table of the first
  byte's class (\<open>x mod 8\<close> is the size of the encoding, \<open>x div 16\<close> the index of the range
  the second byte must lie in), \<open>acceptRanges\<close> its table of those ranges. A byte that
  starts no valid encoding counts as one rune of width 1.
\<close>

definition xx :: nat where "xx = 0xF1"
definition locb :: nat where "locb = 0x80"
definition hicb :: nat where "hicb = 0xBF"

definition first :: "nat \<Rightarrow> nat" where
  "first c =
     (if c < 0x80 then 0xF0
      else if c < 0xC2 then xx
      else if c < 0xE0 then 0x02
      else if c = 0xE0 then 0x13
      else if c < 0xED then 0x03
      else if c = 0xED then 0x23
      else if c < 0xF0 then 0x03
      else if c = 0xF0 then 0x34
      else if c < 0xF4 then 0x04
      else if c = 0xF4 then 0x44
      else xx)"

definition acceptRanges :: "nat \<Rightarrow> nat \<times> nat" where
  "acceptRanges i =
     (if i = 0 then (locb, hicb)
      else if i = 1 then (0xA0, hicb)
      else if i = 2 then (locb, 0x9F)
      else if i = 3 then (0x90, hicb)
      else if i = 4 then (locb, 0x8F)
      else (0, 0))"

text \<open>
  \<open>rune_size s\<close> is the number of bytes by which one turn of the loop advances on the
  non-empty rest \<open>s\<close> of the string; the reads \<open>s ! 1\<close>, \<open>s ! 2\<close>, \<open>s ! 3\<close> are within
  the string, since they come after the check \<open>size \<le> length s\<close>.
\<close>

definition rune_size :: "string \<Rightarrow> nat" where
  "rune_size s =
     (let c = (of_char (s ! 0) :: nat) in
      if c < 0x80 then 1
      else
        let x = first c in
        if x = xx then 1
        else
          let size = x mod 8 in
          if length s < size then 1
          else
            let accept = acceptRanges (x div 16);
                c1 = (of_char (s ! 1) :: nat)
            in
            if c1 < fst accept \<or> snd accept < c1 then 1
            else if size = 2 then 2
            else
              let c2 = (of_char (s ! 2) :: nat) in
              if c2 < locb \<or> hicb < c2 then 1
              else if size = 3 then 3
              else
                let c3 = (of_char (s ! 3) :: nat) in
                if c3 < locb \<or> hicb < c3 then 1
                else size)"

lemma rune_size_pos: "0 < rune_size s"
  unfolding rune_size_def Let_def first_def xx_def
  by (simp split: if_splits)

function RuneCountInString :: "string \<Rightarrow> nat" where
  "RuneCountInString s =
     (if s = [] then 0 else Suc (RuneCountInString (drop (rune_size s) s)))"
  by pat_completeness auto
termination
  by (relation "measure length") (use rune_size_pos in \<open>auto simp: Suc_le_eq\<close>)

declare RuneCountInString.simps [simp del]

text \<open>
  What the count means on well-formed text: \<open>utf8_encode\<close> is the UTF-8 encoding of
  one code point (RFC 3629), \<open>valid_rune\<close> says that a number is a Unicode scalar value
  (a code point that is not a surrogate).
\<close>

definition valid_rune :: "nat \<Rightarrow> bool" where
  "valid_rune r = (r < 0xD800 \<or> (0xE000 \<le> r \<and> r < 0x110000))"

definition utf8_encode :: "nat \<Rightarrow> string" where
  "utf8_encode r =
     (if r < 0x80 then [char_of r]
      else if r < 0x800 then [char_of (0xC0 + r div 64), char_of (0x80 + r mod 64)]
      else if r < 0x10000 then
        [char_of (0xE0 + r div 4096), char_of (0x80 + (r div 64) mod 64),
         char_of (0x80 + r mod 64)]
      else
        [char_of (0xF0 + r div 262144), char_of (0x80 + (r div 4096) mod 64),
         char_of (0x80 + (r div 64) mod 64), char_of (0x80 + r mod 64)])"

definition utf8 :: "nat list \<Rightarrow> string" where
  "utf8 rs = concat (map utf8_encode rs)"

lemma rune_size_one:
  assumes "(b0::nat) < 0x80"
  shows "rune_size (char_of b0 # rest) = 1"
  using assms by (simp add: rune_size_def)

lemma rune_size_two:
  assumes "0x80 \<le> b0" "b0 < 256" "(b1::nat) < 256" "first b0 = x" "x \<noteq> xx" "x mod 8 = 2"
    and "fst (acceptRanges (x div 16)) \<le> b1" "b1 \<le> snd (acceptRanges (x div 16))"
  shows "rune_size (char_of b0 # char_of b1 # rest) = 2"
  using assms by (simp add: rune_size_def Let_def)

lemma rune_size_three:
  assumes "0x80 \<le> b0" "b0 < 256" "(b1::nat) < 256" "(b2::nat) < 256" "first b0 = x" "x \<noteq> xx" "x mod 8 = 3"
    and "fst (acceptRanges (x div 16)) \<le> b1" "b1 \<le> snd (acceptRanges (x div 16))"
    and "0x80 \<le> b2" "b2 \<le> 0xBF"
  shows "rune_size (char_of b0 # char_of b1 # char_of b2 # rest) = 3"
  using assms by (simp add: rune_size_def Let_def locb_def hicb_def)

lemma rune_size_four:
  assumes "0x80 \<le> b0" "b0 < 256" "(b1::nat) < 256" "(b2::nat) < 256" "(b3::nat) < 256" "first b0 = x" "x \<noteq> xx" "x mod 8 = 4"
    and "fst (acceptRanges (x div 16)) \<le> b1" "b1 \<le> snd (acceptRanges (x div 16))"
    and "0x80 \<le> b2" "b2 \<le> 0xBF" "0x80 \<le> b3" "b3 \<le> 0xBF"
  shows "rune_size (char_of b0 # char_of b1 # char_of b2 # char_of b3 # rest) = 4"
  using assms by (simp add: rune_size_def Let_def locb_def hicb_def)

lemma first_class:
  "c < 0x80 \<Longrightarrow> first c = 0xF0"
  "0xC2 \<le> c \<Longrightarrow> c < 0xE0 \<Longrightarrow> first c = 0x02"
  "first 0xE0 = 0x13"
  "0xE1 \<le> c \<Longrightarrow> c < 0xF0 \<Longrightarrow> c \<noteq> 0xED \<Longrightarrow> first c = 0x03"
  "first 0xED = 0x23"
  "first 0xF0 = 0x34"
  "0xF1 \<le> c \<Longrightarrow> c < 0xF4 \<Longrightarrow> first c = 0x04"
  "first 0xF4 = 0x44"
  by (simp_all add: first_def)

lemma rune_size_encode:
  assumes "valid_rune r"
  shows "rune_size (utf8_encode r @ rest) = length (utf8_encode r)"
proof -
  define q1 where "q1 = r div 64"
  define q2 where "q2 = q1 div 64"
  define q3 where "q3 = q2 div 64"
  have r: "r = q1 * 64 + r mod 64" "r mod 64 < 64"
    by (simp_all add: q1_def)
  have q1: "q1 = q2 * 64 + q1 mod 64" "q1 mod 64 < 64"
    by (simp_all add: q2_def)
  have q2: "q2 = q3 * 64 + q2 mod 64" "q2 mod 64 < 64"
    by (simp_all add: q3_def)
  have div4096: "r div 4096 = q2"
    by (simp add: q1_def q2_def div_mult2_eq)
  have div262144: "r div 262144 = q3"
    by (simp add: q1_def q2_def q3_def div_mult2_eq)
  consider "r < 0x80" | "0x80 \<le> r" "r < 0x800" | "0x800 \<le> r" "r < 0x10000" | "0x10000 \<le> r"
    by linarith
  then show ?thesis
  proof cases
    case 1
    then show ?thesis by (simp add: utf8_encode_def rune_size_one)
  next
    case 2
    define b0 where "b0 = 0xC0 + q1"
    define b1 where "b1 = 0x80 + r mod 64"
    have b: "0xC2 \<le> b0" "b0 < 0xE0" "0x80 \<le> b1" "b1 \<le> 0xBF"
      using 2 r unfolding b0_def b1_def by linarith+
    have "rune_size (char_of b0 # char_of b1 # rest) = 2"
      by (rule rune_size_two [where x = "0x02"])
         (use b in \<open>simp_all add: first_class xx_def acceptRanges_def locb_def hicb_def\<close>)
    with 2 show ?thesis by (simp add: utf8_encode_def b0_def b1_def q1_def)
  next
    case 3
    define b0 where "b0 = 0xE0 + q2"
    define b1 where "b1 = 0x80 + q1 mod 64"
    define b2 where "b2 = 0x80 + r mod 64"
    have d: "q2 < 16" using 3 r q1 by linarith
    have b: "0x80 \<le> b1" "b1 \<le> 0xBF" "0x80 \<le> b2" "b2 \<le> 0xBF"
      using r q1 unfolding b1_def b2_def by linarith+
    have lo: "q2 = 0 \<Longrightarrow> 0xA0 \<le> b1" using 3 r q1 unfolding b1_def by linarith
    have hi: "q2 = 13 \<Longrightarrow> b1 \<le> 0x9F"
      using 3 assms r q1 unfolding b1_def valid_rune_def by linarith
    consider "q2 = 0" | "q2 = 13" | "1 \<le> q2" "q2 \<noteq> 13" by linarith
    then have "rune_size (char_of b0 # char_of b1 # char_of b2 # rest) = 3"
    proof cases
      case 1
      show ?thesis
        by (rule rune_size_three [where x = "0x13"])
           (use 1 b lo in \<open>simp_all add: b0_def first_class xx_def acceptRanges_def locb_def hicb_def\<close>)
    next
      case 2
      show ?thesis
        by (rule rune_size_three [where x = "0x23"])
           (use 2 b hi in \<open>simp_all add: b0_def first_class xx_def acceptRanges_def locb_def hicb_def\<close>)
    next
      case 3
      show ?thesis
        by (rule rune_size_three [where x = "0x03"])
           (use 3 d b in \<open>simp_all add: b0_def first_class xx_def acceptRanges_def locb_def hicb_def\<close>)
    qed
    with 3 show ?thesis
      by (simp add: utf8_encode_def b0_def b1_def b2_def div4096) (simp add: q1_def)
  next
    case 4
    define b0 where "b0 = 0xF0 + q3"
    define b1 where "b1 = 0x80 + q2 mod 64"
    define b2 where "b2 = 0x80 + q1 mod 64"
    define b3 where "b3 = 0x80 + r mod 64"
    have rr: "r < 0x110000" using 4 assms unfolding valid_rune_def by linarith
    have d: "q3 < 5" using rr r q1 q2 by linarith
    have b: "0x80 \<le> b1" "b1 \<le> 0xBF" "0x80 \<le> b2" "b2 \<le> 0xBF" "0x80 \<le> b3" "b3 \<le> 0xBF"
      using r q1 q2 unfolding b1_def b2_def b3_def by linarith+
    have lo: "q3 = 0 \<Longrightarrow> 0x90 \<le> b1" using 4 r q1 q2 unfolding b1_def by linarith
    have hi: "q3 = 4 \<Longrightarrow> b1 \<le> 0x8F" using rr r q1 q2 unfolding b1_def by linarith
    consider "q3 = 0" | "q3 = 4" | "1 \<le> q3" "q3 < 4" using d by linarith
    then have "rune_size (char_of b0 # char_of b1 # char_of b2 # char_of b3 # rest) = 4"
    proof cases
      case 1
      show ?thesis
        by (rule rune_size_four [where x = "0x34"])
           (use 1 b lo in \<open>simp_all add: b0_def first_class xx_def acceptRanges_def locb_def hicb_def\<close>)
    next
      case 2
      show ?thesis
        by (rule rune_size_four [where x = "0x44"])
           (use 2 b hi in \<open>simp_all add: b0_def first_class xx_def acceptRanges_def locb_def hicb_def\<close>)
    next
      case 3
      show ?thesis
        by (rule rune_size_four [where x = "0x04"])
           (use 3 b in \<open>simp_all add: b0_def first_class xx_def acceptRanges_def locb_def hicb_def\<close>)
    qed
    with 4 show ?thesis
      by (simp add: utf8_encode_def b0_def b1_def b2_def b3_def div4096 div262144) (simp add: q1_def)
  qed
qed

lemma utf8_encode_nonempty: "utf8_encode r \<noteq> []"
  by (simp add: utf8_encode_def)

lemma RuneCountInString_Nil: "RuneCountInString [] = 0"
  by (simp add: RuneCountInString.simps)

lemma RuneCountInString_utf8:
  assumes "list_all valid_rune rs"
  shows "RuneCountInString (utf8 rs) = length rs"
  using assms
proof (induction rs)
  case Nil
  then show ?case by (simp add: utf8_def RuneCountInString_Nil)
next
  case (Cons r rs)
  have "RuneCountInString (utf8_encode r @ utf8 rs) = Suc (RuneCountInString (utf8 rs))"
    using Cons.prems
    by (subst RuneCountInString.simps) (simp add: utf8_encode_nonempty rune_size_encode)
  with Cons show ?case by (simp add: utf8_def)
qed

section \<open>The rule library\<close>

text \<open>
  \<^verbatim>\<open>type validationFunc func(value reflect.Value) error\<close>: a rule takes a value and
  returns an error or \<^verbatim>\<open>nil\<close> (\<open>None\<close>). Go's \<^verbatim>\<open>int\<close> and \<^verbatim>\<open>int64\<close> are \<open>int\<close>:
  the rules only compare them, and the parsers below check the 64-bit range.
\<close>

type_synonym validationFunc = "val \<Rightarrow> error option"

fun getLenValidationFunc :: "int \<Rightarrow> validationFunc" where
  "getLenValidationFunc n (VString s) =
     (if int (RuneCountInString s) \<noteq> n then Some (New ''invalid length'') else None)"
| "getLenValidationFunc n (VSlice ek xs) =
     (if int (length xs) \<noteq> n then Some (New ''invalid length'') else None)"
| "getLenValidationFunc n (VArray ek xs) =
     (if int (length xs) \<noteq> n then Some (New ''invalid length'') else None)"
| "getLenValidationFunc n v = Some (New ''invalid type of field for tag len'')"

fun getMinValidationFunc :: "int \<Rightarrow> validationFunc" where
  "getMinValidationFunc m (VString s) =
     (if int (RuneCountInString s) < m then Some (New ''string length less than min'')
      else None)"
| "getMinValidationFunc m (VSlice ek xs) =
     (if int (length xs) < m then Some (New ''slice length less than min'') else None)"
| "getMinValidationFunc m (VArray ek xs) =
     (if int (length xs) < m then Some (New ''slice length less than min'') else None)"
| "getMinValidationFunc m (VInt i) =
     (if i < m then Some (New ''int value less than min'') else None)"
| "getMinValidationFunc m v = Some (New ''invalid type of field for tag min'')"

fun getMaxValidationFunc :: "int \<Rightarrow> validationFunc" where
  "getMaxValidationFunc m (VString s) =
     (if int (RuneCountInString s) > m then Some (New ''string length greater than max'')
      else None)"
| "getMaxValidationFunc m (VSlice ek xs) =
     (if int (length xs) > m then Some (New ''slice length greater than max'') else None)"
| "getMaxValidationFunc m (VArray ek xs) =
     (if int (length xs) > m then Some (New ''slice length greater than max'') else None)"
| "getMaxValidationFunc m (VInt i) =
     (if i > m then Some (New ''int value greater than max'') else None)"
| "getMaxValidationFunc m v = Some (New ''invalid type of field for tag max'')"

section \<open>Strings: \<^verbatim>\<open>strings.TrimSpace\<close>, \<^verbatim>\<open>strings.Split\<close>, \<^verbatim>\<open>strings.SplitN\<close>\<close>

text \<open>
  \<^verbatim>\<open>strings.TrimSpace\<close> removes all leading and trailing white space, as defined by
  Unicode (\<^verbatim>\<open>unicode.IsSpace\<close>). \<open>white_space\<close> lists the UTF-8 encodings of the
  white-space code points: U+0009 to U+000D, U+0020, U+0085, U+00A0, U+1680, U+2000 to
  U+200A, U+2028, U+2029, U+202F, U+205F and U+3000. No encoding is a prefix or a suffix
  of another one.
\<close>

definition white_space :: "string list" where
  "white_space =
     [[CHR 0x09], [CHR 0x0A], [CHR 0x0B], [CHR 0x0C], [CHR 0x0D], [CHR 0x20],
      [CHR 0xC2, CHR 0x85], [CHR 0xC2, CHR 0xA0],
      [CHR 0xE1, CHR 0x9A, CHR 0x80],
      [CHR 0xE2, CHR 0x80, CHR 0x80], [CHR 0xE2, CHR 0x80, CHR 0x81],
      [CHR 0xE2, CHR 0x80, CHR 0x82], [CHR 0xE2, CHR 0x80, CHR 0x83],
      [CHR 0xE2, CHR 0x80, CHR 0x84], [CHR 0xE2, CHR 0x80, CHR 0x85],
      [CHR 0xE2, CHR 0x80, CHR 0x86], [CHR 0xE2, CHR 0x80, CHR 0x87],
      [CHR 0xE2, CHR 0x80, CHR 0x88], [CHR 0xE2, CHR 0x80, CHR 0x89],
      [CHR 0xE2, CHR 0x80, CHR 0x8A],
      [CHR 0xE2, CHR 0x80, CHR 0xA8], [CHR 0xE2, CHR 0x80, CHR 0xA9],
      [CHR 0xE2, CHR 0x80, CHR 0xAF], [CHR 0xE2, CHR 0x81, CHR 0x9F],
      [CHR 0xE3, CHR 0x80, CHR 0x80]]"

text \<open>The width of the white-space rune that \<open>s\<close> starts (ends) with, 0 without one.\<close>

definition leading_space :: "string \<Rightarrow> nat" where
  "leading_space s =
     (case List.find (\<lambda>w. take (length w) s = w) white_space of
        None \<Rightarrow> 0
      | Some w \<Rightarrow> length w)"

definition trailing_space :: "string \<Rightarrow> nat" where
  "trailing_space s =
     (case List.find (\<lambda>w. length w \<le> length s \<and> drop (length s - length w) s = w) white_space of
        None \<Rightarrow> 0
      | Some w \<Rightarrow> length w)"

lemma leading_space_Nil: "leading_space [] = 0"
  by (simp add: leading_space_def white_space_def)

lemma trailing_space_Nil: "trailing_space [] = 0"
  by (simp add: trailing_space_def white_space_def)

function TrimLeft :: "string \<Rightarrow> string" where
  "TrimLeft s = (if leading_space s = 0 then s else TrimLeft (drop (leading_space s) s))"
  by pat_completeness auto
termination
proof (relation "measure length")
  fix s assume "leading_space s \<noteq> 0"
  then have "s \<noteq> []" using leading_space_Nil by auto
  with \<open>leading_space s \<noteq> 0\<close> show "(drop (leading_space s) s, s) \<in> measure length"
    by simp
qed simp

function TrimRight :: "string \<Rightarrow> string" where
  "TrimRight s =
     (if trailing_space s = 0 then s else TrimRight (take (length s - trailing_space s) s))"
  by pat_completeness auto
termination
proof (relation "measure length")
  fix s assume "trailing_space s \<noteq> 0"
  then have "s \<noteq> []" using trailing_space_Nil by auto
  with \<open>trailing_space s \<noteq> 0\<close> show "(take (length s - trailing_space s) s, s) \<in> measure length"
    by simp
qed simp

declare TrimLeft.simps [simp del] TrimRight.simps [simp del]

definition TrimSpace :: "string \<Rightarrow> string" where
  "TrimSpace s = TrimRight (TrimLeft s)"

text \<open>
  \<^verbatim>\<open>strings.SplitN(s, sep, n)\<close> for a separator of one byte and \<open>n \<ge> 0\<close>: at most
  \<open>n\<close> substrings, the last one the unsplit rest. \<^verbatim>\<open>strings.Split(s, sep)\<close> returns all
  the substrings between the separators.
\<close>

fun SplitN :: "string \<Rightarrow> char \<Rightarrow> nat \<Rightarrow> string list" where
  "SplitN s sep 0 = []"
| "SplitN s sep (Suc 0) = [s]"
| "SplitN s sep (Suc (Suc n)) =
     (case dropWhile (\<lambda>c. c \<noteq> sep) s of
        [] \<Rightarrow> [s]
      | c # rest \<Rightarrow> takeWhile (\<lambda>c. c \<noteq> sep) s # SplitN rest sep (Suc n))"

function Split :: "string \<Rightarrow> char \<Rightarrow> string list" where
  "Split s sep =
     (case dropWhile (\<lambda>c. c \<noteq> sep) s of
        [] \<Rightarrow> [s]
      | c # rest \<Rightarrow> takeWhile (\<lambda>c. c \<noteq> sep) s # Split rest sep)"
  by pat_completeness auto
termination
proof (relation "measure (\<lambda>(s, sep). length s)")
  fix s :: string and sep c rest
  assume "dropWhile (\<lambda>c. c \<noteq> sep) s = c # rest"
  then have "Suc (length rest) \<le> length s"
    using length_dropWhile_le [of "\<lambda>c. c \<noteq> sep" s] by simp
  then show "((rest, sep), (s, sep)) \<in> measure (\<lambda>(s, sep). length s)"
    by simp
qed simp

declare Split.simps [simp del]

section \<open>Numbers: \<^verbatim>\<open>strconv.ParseInt\<close> and \<^verbatim>\<open>strconv.Atoi\<close>\<close>

text \<open>
  The parsers of Go's \<^verbatim>\<open>strconv\<close>, for 64 bits (\<^verbatim>\<open>int\<close> has 64 bits on the platforms
  the package is tested on). The unsigned accumulator of \<^verbatim>\<open>ParseUint\<close> is a \<open>nat\<close>
  with the wrap-around at \<open>2 ^ 64\<close> written out. Base 0 reads the base from the prefix
  (\<^verbatim>\<open>0b\<close>, \<^verbatim>\<open>0o\<close>, \<^verbatim>\<open>0x\<close>, a leading \<^verbatim>\<open>0\<close> for octal) and allows underscores
  between digits.
\<close>

datatype NumError = ErrSyntax | ErrRange | ErrBase

definition lower :: "char \<Rightarrow> nat" where
  "lower c = or (of_char c) 0x20"

definition maxUint64 :: nat where
  "maxUint64 = 2 ^ 64 - 1"

fun underscoreOK_loop :: "string \<Rightarrow> bool \<Rightarrow> char \<Rightarrow> bool" where
  "underscoreOK_loop [] hex saw = (saw \<noteq> CHR ''_'')"
| "underscoreOK_loop (c # s) hex saw =
     (if (0x30 \<le> (of_char c :: nat) \<and> (of_char c :: nat) \<le> 0x39)
         \<or> (hex \<and> 0x61 \<le> lower c \<and> lower c \<le> 0x66)
      then underscoreOK_loop s hex (CHR ''0'')
      else if c = CHR ''_'' then
        (if saw \<noteq> CHR ''0'' then False else underscoreOK_loop s hex (CHR ''_''))
      else if saw = CHR ''_'' then False
      else underscoreOK_loop s hex (CHR ''!''))"

definition underscoreOK :: "string \<Rightarrow> bool" where
  "underscoreOK s0 =
     (let s = (if 1 \<le> length s0 \<and> (s0 ! 0 = CHR ''-'' \<or> s0 ! 0 = CHR ''+'') then drop 1 s0
               else s0)
      in
      if 2 \<le> length s \<and> s ! 0 = CHR ''0''
         \<and> (lower (s ! 1) = 0x62 \<or> lower (s ! 1) = 0x6F \<or> lower (s ! 1) = 0x78)
      then underscoreOK_loop (drop 2 s) (lower (s ! 1) = 0x78) (CHR ''0'')
      else underscoreOK_loop s False (CHR ''^''))"

text \<open>
  The digit loop of \<^verbatim>\<open>ParseUint\<close>: \<open>n\<close> is the number read so far,
  \<open>underscores\<close> whether an underscore was seen. It stops at the first byte that is no
  digit of the base (a syntax error) and at the first overflow (a range error).
\<close>

fun ParseUint_loop ::
  "string \<Rightarrow> nat \<Rightarrow> bool \<Rightarrow> nat \<Rightarrow> bool \<Rightarrow> NumError + nat \<times> bool" where
  "ParseUint_loop [] base base0 n underscores = Inr (n, underscores)"
| "ParseUint_loop (c # s) base base0 n underscores =
     (if c = CHR ''_'' \<and> base0 then ParseUint_loop s base base0 n True
      else
        case (if 0x30 \<le> (of_char c :: nat) \<and> (of_char c :: nat) \<le> 0x39
              then Some (of_char c - 0x30)
              else if 0x61 \<le> lower c \<and> lower c \<le> 0x7A then Some (lower c - 0x61 + 10)
              else None) of
          None \<Rightarrow> Inl ErrSyntax
        | Some d \<Rightarrow>
            if d \<ge> base then Inl ErrSyntax
            else if n \<ge> maxUint64 div base + 1 then Inl ErrRange
            else
              let n' = n * base;
                  n1 = (n' + d) mod 2 ^ 64
              in
              if n1 < n' \<or> n1 > maxUint64 then Inl ErrRange
              else ParseUint_loop s base base0 n1 underscores)"

text \<open>\<^verbatim>\<open>ParseUint(s, base, 64)\<close>: the number and the error, \<open>None\<close> for \<^verbatim>\<open>nil\<close>.\<close>

definition ParseUint :: "string \<Rightarrow> nat \<Rightarrow> nat \<times> NumError option" where
  "ParseUint s0 base0 =
     (if s0 = [] then (0, Some ErrSyntax)
      else if \<not> (base0 = 0 \<or> (2 \<le> base0 \<and> base0 \<le> 36)) then (0, Some ErrBase)
      else
        let (base, s) =
              (if base0 \<noteq> 0 then (base0, s0)
               else if s0 ! 0 = CHR ''0'' then
                 (if 3 \<le> length s0 \<and> lower (s0 ! 1) = 0x62 then (2, drop 2 s0)
                  else if 3 \<le> length s0 \<and> lower (s0 ! 1) = 0x6F then (8, drop 2 s0)
                  else if 3 \<le> length s0 \<and> lower (s0 ! 1) = 0x78 then (16, drop 2 s0)
                  else (8, drop 1 s0))
               else (10, s0))
        in
        case ParseUint_loop s base (base0 = 0) 0 False of
          Inl ErrRange \<Rightarrow> (maxUint64, Some ErrRange)
        | Inl e \<Rightarrow> (0, Some e)
        | Inr (n, underscores) \<Rightarrow>
            if underscores \<and> \<not> underscoreOK s0 then (0, Some ErrSyntax) else (n, None))"

text \<open>\<^verbatim>\<open>ParseInt(s, base, 64)\<close>.\<close>

definition ParseInt :: "string \<Rightarrow> nat \<Rightarrow> int \<times> NumError option" where
  "ParseInt s0 base =
     (if s0 = [] then (0, Some ErrSyntax)
      else
        let neg = (s0 ! 0 = CHR ''-'');
            s = (if s0 ! 0 = CHR ''+'' \<or> s0 ! 0 = CHR ''-'' then drop 1 s0 else s0);
            (un, err) = ParseUint s base
        in
        if err \<noteq> None \<and> err \<noteq> Some ErrRange then (0, err)
        else
          let cutoff = (2 :: nat) ^ 63 in
          if \<not> neg \<and> un \<ge> cutoff then (int cutoff - 1, Some ErrRange)
          else if neg \<and> un > cutoff then (- int cutoff, Some ErrRange)
          else (if neg then - int un else int un, None))"

text \<open>
  \<^verbatim>\<open>Atoi(s)\<close> is \<^verbatim>\<open>ParseInt(s, 10, 0)\<close> converted to \<^verbatim>\<open>int\<close>; its fast path for
  short strings returns the same.
\<close>

definition Atoi :: "string \<Rightarrow> int \<times> NumError option" where
  "Atoi s = ParseInt s 10"

section \<open>The rule parser\<close>

definition tagName :: string where "tagName = ''validate''"
definition lenTag :: string where "lenTag = ''len''"
definition inTag :: string where "inTag = ''in''"
definition minTag :: string where "minTag = ''min''"
definition maxTag :: string where "maxTag = ''max''"

text \<open>
  The \<^verbatim>\<open>in\<close> rule. On a string it looks for the value among the trimmed entries. On an
  int it first parses every entry (\<open>in_parse\<close>, the loop that fills the slice \<^verbatim>\<open>in\<close>),
  returning the syntax error at the first entry that does not parse, and only then
  compares.
\<close>

fun in_strings :: "string list \<Rightarrow> string \<Rightarrow> error option" where
  "in_strings [] s = Some (New ''field value is not in array from tag'')"
| "in_strings (str # strs) s = (if s = TrimSpace str then None else in_strings strs s)"

fun in_parse :: "string list \<Rightarrow> int list \<Rightarrow> error + int list" where
  "in_parse [] ins = Inr ins"
| "in_parse (str # strs) ins =
     (case ParseInt (TrimSpace str) 0 of
        (v, Some err) \<Rightarrow> Inl ErrInvalidValidatorSyntax
      | (v, None) \<Rightarrow> in_parse strs (ins @ [v]))"

fun in_ints :: "int list \<Rightarrow> int \<Rightarrow> error option" where
  "in_ints [] i = Some (New ''field value is not in array from tag'')"
| "in_ints (v # ins) i = (if v = i then None else in_ints ins i)"

fun getInValidationFunc :: "string list \<Rightarrow> validationFunc" where
  "getInValidationFunc strs (VString s) = in_strings strs s"
| "getInValidationFunc strs (VInt i) =
     (case in_parse strs [] of
        Inl err \<Rightarrow> Some err
      | Inr ins \<Rightarrow> in_ints ins i)"
| "getInValidationFunc strs v = Some (New ''invalid type of field for tag in'')"

text \<open>\<^verbatim>\<open>getValidationFunc\<close> returns the rule (\<open>Inr\<close>) or the error (\<open>Inl\<close>).\<close>

definition getValidationFunc :: "string \<Rightarrow> string \<Rightarrow> error + validationFunc" where
  "getValidationFunc funcName0 param0 =
     (let funcName = TrimSpace funcName0;
          param = TrimSpace param0
      in
      if param = [] then Inl ErrInvalidValidatorSyntax
      else if funcName = lenTag then
        (case Atoi param of
           (n, Some err) \<Rightarrow> Inl ErrInvalidValidatorSyntax
         | (n, None) \<Rightarrow> Inr (getLenValidationFunc n))
      else if funcName = inTag then
        Inr (getInValidationFunc (Split param (CHR '','')))
      else if funcName = minTag then
        (case ParseInt param 0 of
           (m, Some err) \<Rightarrow> Inl ErrInvalidValidatorSyntax
         | (m, None) \<Rightarrow> Inr (getMinValidationFunc m))
      else if funcName = maxTag then
        (case ParseInt param 0 of
           (m, Some err) \<Rightarrow> Inl ErrInvalidValidatorSyntax
         | (m, None) \<Rightarrow> Inr (getMaxValidationFunc m))
      else Inl ErrInvalidValidatorSyntax)"

text \<open>
  \<^verbatim>\<open>parseValidateTag\<close> splits at the first colon and reads \<^verbatim>\<open>s[0]\<close> and \<^verbatim>\<open>s[1]\<close>.
  Indexing a Go slice beyond its length panics: \<open>index\<close> is that read.
\<close>

definition index :: "'a list \<Rightarrow> nat \<Rightarrow> panic + 'a" where
  "index xs i = (if i < length xs then Inr (xs ! i) else Inl IndexOutOfRange)"

definition parseValidateTag :: "string \<Rightarrow> panic + (error + validationFunc)" where
  "parseValidateTag validateTag =
     (let s = SplitN validateTag (CHR '':'') 2 in
      case index s 0 of
        Inl p \<Rightarrow> Inl p
      | Inr s0 \<Rightarrow>
          (case index s 1 of
             Inl p \<Rightarrow> Inl p
           | Inr s1 \<Rightarrow> Inr (getValidationFunc s0 s1)))"

section \<open>The field validator and the traversal\<close>

text \<open>The loop of \<^verbatim>\<open>validateField\<close> that follows pointers up to the first nil one.\<close>

fun deref :: "val \<Rightarrow> val" where
  "deref (VPtr (Some v)) = deref v"
| "deref v = v"

definition validateField ::
  "StructField \<Rightarrow> val \<Rightarrow> ValidationErrors \<Rightarrow> panic + ValidationErrors" where
  "validateField fieldDefinition fieldValue errs =
     (let tag = Tag_Get fieldDefinition tagName in
      if tag = [] \<or> tag = ''-'' then Inr errs
      else if \<not> Anonymous fieldDefinition \<and> PkgPath fieldDefinition \<noteq> [] then
        Inr (errs @ [\<lparr>Err = ErrValidateForUnexportedFields\<rparr>])
      else
        case parseValidateTag tag of
          Inl p \<Rightarrow> Inl p
        | Inr (Inl err) \<Rightarrow> Inr (errs @ [\<lparr>Err = err\<rparr>])
        | Inr (Inr vfunc) \<Rightarrow>
            (case vfunc (deref fieldValue) of
               Some err \<Rightarrow> Inr (errs @ [\<lparr>Err = err\<rparr>])
             | None \<Rightarrow> Inr errs))"

text \<open>The loop of \<^verbatim>\<open>validateStruct\<close> over the fields, in declaration order.\<close>

fun validateFields ::
  "(StructField \<times> val) list \<Rightarrow> ValidationErrors \<Rightarrow> panic + ValidationErrors" where
  "validateFields [] errs = Inr errs"
| "validateFields ((fd, fv) # fs) errs =
     (case validateField fd fv errs of
        Inl p \<Rightarrow> Inl p
      | Inr errs' \<Rightarrow> validateFields fs errs')"

fun validateStruct :: "val \<Rightarrow> ValidationErrors \<Rightarrow> panic + ValidationErrors" where
  "validateStruct (VPtr (Some v)) errs = validateStruct v errs"
| "validateStruct (VStruct fs) errs = validateFields fs errs"
| "validateStruct v errs = Inr (errs @ [\<lparr>Err = ErrNotStruct\<rparr>])"

text \<open>
  \<^verbatim>\<open>deepValidate\<close>; \<open>deepValidate_loop\<close> is its loop over the elements of a slice or
  array, in index order.
\<close>

fun deepValidate :: "val \<Rightarrow> ValidationErrors \<Rightarrow> panic + ValidationErrors"
  and deepValidate_loop :: "val list \<Rightarrow> ValidationErrors \<Rightarrow> panic + ValidationErrors" where
  "deepValidate (VPtr None) errs = Inr errs"
| "deepValidate (VPtr (Some v)) errs = deepValidate v errs"
| "deepValidate (VStruct fs) errs = validateStruct (VStruct fs) errs"
| "deepValidate (VSlice ek xs) errs =
     (if ek = Struct \<or> ek = Ptr \<or> ek = Array \<or> ek = Slice then deepValidate_loop xs errs
      else Inr (errs @ [\<lparr>Err = ErrNotStruct\<rparr>]))"
| "deepValidate (VArray ek xs) errs =
     (if ek = Struct \<or> ek = Ptr \<or> ek = Array \<or> ek = Slice then deepValidate_loop xs errs
      else Inr (errs @ [\<lparr>Err = ErrNotStruct\<rparr>]))"
| "deepValidate v errs = Inr (errs @ [\<lparr>Err = ErrNotStruct\<rparr>])"
| "deepValidate_loop [] errs = Inr errs"
| "deepValidate_loop (x # xs) errs =
     (case deepValidate x errs of
        Inl p \<Rightarrow> Inl p
      | Inr errs' \<Rightarrow> deepValidate_loop xs errs')"

text \<open>
  \<^verbatim>\<open>Validate\<close> takes the \<^verbatim>\<open>reflect.Value\<close> of its argument (\<open>VOther Invalid\<close> for an
  untyped nil) and returns nil (\<open>None\<close>) or the errors.
\<close>

definition Validate :: "val \<Rightarrow> panic + ValidationErrors option" where
  "Validate v =
     (case deepValidate v [] of
        Inl p \<Rightarrow> Inl p
      | Inr errs \<Rightarrow> if length errs > 0 then Inr (Some errs) else Inr None)"

section \<open>Facts for evaluating the model on concrete inputs\<close>

lemmas rune_eval =
  RuneCountInString.simps rune_size_def Let_def first_def xx_def acceptRanges_def
  locb_def hicb_def


section \<open>The rule library: \<^verbatim>\<open>len\<close>, \<^verbatim>\<open>min\<close>, \<^verbatim>\<open>max\<close>\<close>

lemma other_kind_len:
  assumes "Kind v \<noteq> String" "Kind v \<noteq> Slice" "Kind v \<noteq> Array"
  shows "getLenValidationFunc n v = Some (New ''invalid type of field for tag len'')"
  using assms by (cases v) simp_all


text \<open>
  Claim C4. The \<^verbatim>\<open>len\<close> rule with parameter \<open>n\<close> succeeds on a string iff its rune
  count is \<open>n\<close>; on text that is the UTF-8 encoding of Unicode code points the rune count
  is the number of code points, which is not the number of bytes. It succeeds on a slice
  or an array iff the number of elements is \<open>n\<close>. On a value of any other kind it returns
  the error "invalid type of field for tag len".
\<close>

theorem getLenValidationFunc_exact:
  "getLenValidationFunc n (VString s) =
     (if int (RuneCountInString s) = n then None else Some (New ''invalid length''))
   \<and> (list_all valid_rune rs \<longrightarrow>
        getLenValidationFunc n (VString (utf8 rs)) =
          (if int (length rs) = n then None else Some (New ''invalid length'')))
   \<and> getLenValidationFunc n (VSlice ek xs) =
        (if int (length xs) = n then None else Some (New ''invalid length''))
   \<and> getLenValidationFunc n (VArray ek xs) =
        (if int (length xs) = n then None else Some (New ''invalid length''))
   \<and> (Kind v \<noteq> String \<and> Kind v \<noteq> Slice \<and> Kind v \<noteq> Array \<longrightarrow>
        getLenValidationFunc n v = Some (New ''invalid type of field for tag len''))"
  by (simp add: RuneCountInString_utf8 other_kind_len)

theorem getLenValidationFunc_exact_witness:
  "length [CHR ''h'', CHR 0xC3, CHR 0xA9, CHR ''l'', CHR ''l'', CHR ''o''] = 6
   \<and> getLenValidationFunc 5 (VString [CHR ''h'', CHR 0xC3, CHR 0xA9, CHR ''l'', CHR ''l'', CHR ''o'']) = None
   \<and> getLenValidationFunc 6 (VString [CHR ''h'', CHR 0xC3, CHR 0xA9, CHR ''l'', CHR ''l'', CHR ''o''])
       = Some (New ''invalid length'')
   \<and> list_all valid_rune [0x68, 0xE9, 0x6C, 0x6C, 0x6F]
   \<and> utf8 [0x68, 0xE9, 0x6C, 0x6C, 0x6F] = [CHR ''h'', CHR 0xC3, CHR 0xA9, CHR ''l'', CHR ''l'', CHR ''o'']
   \<and> getLenValidationFunc 5 (VString (utf8 [0x68, 0xE9, 0x6C, 0x6C, 0x6F])) = None
   \<and> getLenValidationFunc 2 (VSlice IntK [VInt 7, VInt 8]) = None
   \<and> getLenValidationFunc 2 (VArray IntK [VInt 7]) = Some (New ''invalid length'')
   \<and> Kind (VInt 5) \<noteq> String \<and> Kind (VInt 5) \<noteq> Slice \<and> Kind (VInt 5) \<noteq> Array
   \<and> getLenValidationFunc 5 (VInt 5) = Some (New ''invalid type of field for tag len'')"
proof -
  let ?s = "[CHR ''h'', CHR 0xC3, CHR 0xA9, CHR ''l'', CHR ''l'', CHR ''o'']"
  let ?rs = "[0x68, 0xE9, 0x6C, 0x6C, 0x6F] :: nat list"
  have v: "list_all valid_rune ?rs" by (simp add: valid_rune_def)
  have k: "Kind (VInt 5) \<noteq> String \<and> Kind (VInt 5) \<noteq> Slice \<and> Kind (VInt 5) \<noteq> Array" by simp
  have c: "RuneCountInString ?s = 5" by (simp add: rune_eval)
  have u: "utf8 ?rs = ?s" by code_simp
  show ?thesis
    using v k c u
      getLenValidationFunc_exact [of 5 ?s ?rs Struct "[]" "VInt 5"]
      getLenValidationFunc_exact [of 6 ?s ?rs Struct "[]" "VInt 5"]
      getLenValidationFunc_exact [of 2 ?s ?rs IntK "[VInt 7, VInt 8]" "VInt 5"]
      getLenValidationFunc_exact [of 2 ?s ?rs IntK "[VInt 7]" "VInt 5"]
    by simp
qed


lemma other_kind_min:
  assumes "Kind v \<noteq> String" "Kind v \<noteq> Slice" "Kind v \<noteq> Array" "Kind v \<noteq> IntK"
  shows "getMinValidationFunc m v = Some (New ''invalid type of field for tag min'')"
  using assms by (cases v) simp_all

lemma other_kind_max:
  assumes "Kind v \<noteq> String" "Kind v \<noteq> Slice" "Kind v \<noteq> Array" "Kind v \<noteq> IntK"
  shows "getMaxValidationFunc m v = Some (New ''invalid type of field for tag max'')"
  using assms by (cases v) simp_all

text \<open>
  Claim C5. The \<^verbatim>\<open>min\<close> rule with parameter \<open>m\<close> fails iff the measure of the value (the
  rune count of a string, the number of elements of a slice or array, the number of an
  int) is less than \<open>m\<close>, the \<^verbatim>\<open>max\<close> rule iff it is greater; both succeed when the
  measure is \<open>m\<close>. On a value of any other kind they return the error "invalid type of
  field for tag min" or "... max".
\<close>

theorem getMinMaxValidationFunc_exact:
  "getMinValidationFunc m (VString s) =
     (if int (RuneCountInString s) < m then Some (New ''string length less than min'') else None)
   \<and> getMinValidationFunc m (VSlice ek xs) =
        (if int (length xs) < m then Some (New ''slice length less than min'') else None)
   \<and> getMinValidationFunc m (VArray ek xs) =
        (if int (length xs) < m then Some (New ''slice length less than min'') else None)
   \<and> getMinValidationFunc m (VInt i) =
        (if i < m then Some (New ''int value less than min'') else None)
   \<and> getMaxValidationFunc m (VString s) =
        (if m < int (RuneCountInString s) then Some (New ''string length greater than max'')
         else None)
   \<and> getMaxValidationFunc m (VSlice ek xs) =
        (if m < int (length xs) then Some (New ''slice length greater than max'') else None)
   \<and> getMaxValidationFunc m (VArray ek xs) =
        (if m < int (length xs) then Some (New ''slice length greater than max'') else None)
   \<and> getMaxValidationFunc m (VInt i) =
        (if m < i then Some (New ''int value greater than max'') else None)
   \<and> (list_all valid_rune rs \<longrightarrow> RuneCountInString (utf8 rs) = length rs)
   \<and> (Kind v \<noteq> String \<and> Kind v \<noteq> Slice \<and> Kind v \<noteq> Array \<and> Kind v \<noteq> IntK \<longrightarrow>
        getMinValidationFunc m v = Some (New ''invalid type of field for tag min'')
        \<and> getMaxValidationFunc m v = Some (New ''invalid type of field for tag max''))"
  by (simp add: RuneCountInString_utf8 other_kind_min other_kind_max)

theorem getMinMaxValidationFunc_exact_witness:
  "getMinValidationFunc 2 (VSlice IntK [VInt 1, VInt 2, VInt 3]) = None
   \<and> getMaxValidationFunc 4 (VSlice IntK [VInt 1, VInt 2, VInt 3]) = None
   \<and> getMinValidationFunc 2 (VSlice IntK [VInt 1]) = Some (New ''slice length less than min'')
   \<and> getMaxValidationFunc 4 (VArray IntK [VInt 1, VInt 2, VInt 3, VInt 4, VInt 5])
       = Some (New ''slice length greater than max'')
   \<and> getMinValidationFunc 3 (VInt 2) = Some (New ''int value less than min'')
   \<and> getMaxValidationFunc 3 (VInt 4) = Some (New ''int value greater than max'')
   \<and> getMinValidationFunc 3 (VInt 3) = None
   \<and> getMaxValidationFunc 3 (VInt 3) = None
   \<and> list_all valid_rune [0xE9, 0x20AC]
   \<and> RuneCountInString (utf8 [0xE9, 0x20AC]) = 2
   \<and> length (utf8 [0xE9, 0x20AC]) = 5
   \<and> getMinValidationFunc 3 (VString (utf8 [0xE9, 0x20AC])) = Some (New ''string length less than min'')
   \<and> getMinValidationFunc 2 (VString (utf8 [0xE9, 0x20AC])) = None
   \<and> getMaxValidationFunc 2 (VString (utf8 [0xE9, 0x20AC])) = None
   \<and> Kind (VOther Bool) \<noteq> String \<and> Kind (VOther Bool) \<noteq> Slice
   \<and> Kind (VOther Bool) \<noteq> Array \<and> Kind (VOther Bool) \<noteq> IntK
   \<and> getMinValidationFunc 3 (VOther Bool) = Some (New ''invalid type of field for tag min'')
   \<and> getMaxValidationFunc 3 (VOther Bool) = Some (New ''invalid type of field for tag max'')"
proof -
  let ?rs = "[0xE9, 0x20AC] :: nat list"
  define s where "s = utf8 ?rs"
  have v: "list_all valid_rune ?rs" by (simp add: valid_rune_def)
  have k: "Kind (VOther Bool) \<noteq> String \<and> Kind (VOther Bool) \<noteq> Slice
    \<and> Kind (VOther Bool) \<noteq> Array \<and> Kind (VOther Bool) \<noteq> IntK" by simp
  have l: "length (utf8 ?rs) = 5" by (simp add: utf8_def utf8_encode_def)
  note t = getMinMaxValidationFunc_exact [where rs = ?rs and s = s and v = "VOther Bool" and ek = IntK]
  have c: "RuneCountInString s = 2"
    using t [of 0 "[]" 0] v by (simp add: s_def)
  have a1: "getMinValidationFunc 2 (VSlice IntK [VInt 1, VInt 2, VInt 3]) = None"
    using t [of 2 "[VInt 1, VInt 2, VInt 3]" 0] by simp
  have a2: "getMaxValidationFunc 4 (VSlice IntK [VInt 1, VInt 2, VInt 3]) = None"
    using t [of 4 "[VInt 1, VInt 2, VInt 3]" 0] by simp
  have a3: "getMinValidationFunc 2 (VSlice IntK [VInt 1]) = Some (New ''slice length less than min'')"
    using t [of 2 "[VInt 1]" 0] by simp
  have a4: "getMaxValidationFunc 4 (VArray IntK [VInt 1, VInt 2, VInt 3, VInt 4, VInt 5])
       = Some (New ''slice length greater than max'')"
    using t [of 4 "[VInt 1, VInt 2, VInt 3, VInt 4, VInt 5]" 0] by simp
  have a5: "getMinValidationFunc 3 (VInt 2) = Some (New ''int value less than min'')"
    "getMaxValidationFunc 3 (VInt 4) = Some (New ''int value greater than max'')"
    "getMinValidationFunc 3 (VInt 3) = None" "getMaxValidationFunc 3 (VInt 3) = None"
    using t [of 3 "[]" 2] t [of 3 "[]" 4] t [of 3 "[]" 3] by simp_all
  have a6: "getMinValidationFunc 3 (VString s) = Some (New ''string length less than min'')"
    "getMinValidationFunc 2 (VString s) = None" "getMaxValidationFunc 2 (VString s) = None"
    using t [of 3 "[]" 0] t [of 2 "[]" 0] c by simp_all
  have a7: "getMinValidationFunc 3 (VOther Bool) = Some (New ''invalid type of field for tag min'')"
    "getMaxValidationFunc 3 (VOther Bool) = Some (New ''invalid type of field for tag max'')"
    using t [of 3 "[]" 0] k by simp_all
  from v k l c a1 a2 a3 a4 a5 a6 a7 show ?thesis unfolding s_def by blast
qed

section \<open>What \<^verbatim>\<open>Validate\<close> returns on values that are no structs\<close>

text \<open>
  Claim C2. When the root value is no struct, no pointer, and no slice or array whose
  element kind is struct, pointer, slice or array, \<^verbatim>\<open>Validate\<close> returns an aggregate of
  exactly one error, which is \<^verbatim>\<open>ErrNotStruct\<close>.
\<close>

theorem Validate_ErrNotStruct:
  assumes "Kind v \<noteq> Struct" and "Kind v \<noteq> Ptr"
    and "\<not> ((Kind v = Slice \<or> Kind v = Array)
            \<and> (ElemKind v = Some Struct \<or> ElemKind v = Some Ptr
               \<or> ElemKind v = Some Slice \<or> ElemKind v = Some Array))"
  shows "\<exists>errs. Validate v = Inr (Some errs) \<and> errs = [\<lparr>Err = ErrNotStruct\<rparr>]
           \<and> length errs = 1 \<and> Is errs ErrNotStruct"
  using assms by (cases v) (auto simp: Validate_def Is_def)

theorem Validate_ErrNotStruct_witness:
  "Validate (VString ''hello'') = Inr (Some [\<lparr>Err = ErrNotStruct\<rparr>])
   \<and> Validate (VSlice IntK [VInt 1, VInt 2]) = Inr (Some [\<lparr>Err = ErrNotStruct\<rparr>])
   \<and> Validate (VArray String []) = Inr (Some [\<lparr>Err = ErrNotStruct\<rparr>])
   \<and> Validate (VOther Invalid) = Inr (Some [\<lparr>Err = ErrNotStruct\<rparr>])"
  using Validate_ErrNotStruct [of "VString ''hello''"]
    Validate_ErrNotStruct [of "VSlice IntK [VInt 1, VInt 2]"]
    Validate_ErrNotStruct [of "VArray String []"]
    Validate_ErrNotStruct [of "VOther Invalid"]
  by simp

text \<open>
  Claim C10. \<^verbatim>\<open>Validate\<close> returns nil on every slice (a nil slice too) and array of length
  zero whose element kind is struct, pointer, slice or array.
\<close>

theorem Validate_empty_sequence:
  assumes "ek = Struct \<or> ek = Ptr \<or> ek = Slice \<or> ek = Array"
  shows "Validate (VSlice ek []) = Inr None \<and> Validate (VArray ek []) = Inr None"
  using assms by (auto simp: Validate_def)

theorem Validate_empty_sequence_witness:
  "Validate (VSlice Struct []) = Inr None \<and> Validate (VArray Struct []) = Inr None
   \<and> Validate (VSlice Ptr []) = Inr None \<and> Validate (VArray Slice []) = Inr None"
  using Validate_empty_sequence [of Struct] Validate_empty_sequence [of Ptr]
    Validate_empty_sequence [of Slice]
  by simp

lemmas string_eval =
  TrimSpace_def TrimLeft.simps TrimRight.simps leading_space_def trailing_space_def
  white_space_def Split.simps

lemmas strconv_eval =
  Atoi_def ParseInt_def ParseUint_def lower_def maxUint64_def underscoreOK_def

section \<open>The rule parser\<close>

lemma SplitN_no_sep:
  assumes "sep \<notin> set s"
  shows "SplitN s sep 2 = [s]"
proof -
  have "dropWhile (\<lambda>c. c \<noteq> sep) s = []"
    using assms by (auto simp: dropWhile_eq_Nil_conv)
  then show ?thesis by (simp add: numeral_2_eq_2 del: dropWhile_eq_Nil_conv)
qed

lemma SplitN_sep:
  assumes "sep \<in> set s"
  shows "SplitN s sep 2 =
    [takeWhile (\<lambda>c. c \<noteq> sep) s, tl (dropWhile (\<lambda>c. c \<noteq> sep) s)]"
proof -
  have "dropWhile (\<lambda>c. c \<noteq> sep) s \<noteq> []"
    using assms by (auto simp: dropWhile_eq_Nil_conv)
  then obtain c rest where "dropWhile (\<lambda>c. c \<noteq> sep) s = c # rest"
    by (cases "dropWhile (\<lambda>c. c \<noteq> sep) s") auto
  then show ?thesis by (simp add: numeral_2_eq_2)
qed

lemma SplitN_two:
  "SplitN s sep 2 =
     (case dropWhile (\<lambda>c. c \<noteq> sep) s of
        [] \<Rightarrow> [s]
      | c # rest \<Rightarrow> [takeWhile (\<lambda>c. c \<noteq> sep) s, rest])"
  by (simp add: numeral_2_eq_2 del: dropWhile_eq_Nil_conv split: list.splits)

lemma parseValidateTag_panics_iff:
  "parseValidateTag tag = Inl IndexOutOfRange \<longleftrightarrow> CHR '':'' \<notin> set tag"
proof (cases "CHR '':'' \<in> set tag")
  case True
  then show ?thesis by (simp add: parseValidateTag_def index_def SplitN_sep)
next
  case False
  then show ?thesis by (simp add: parseValidateTag_def index_def SplitN_no_sep)
qed

lemmas tag_eval =
  tagName_def lenTag_def inTag_def minTag_def maxTag_def Tag_Get_def
  parseValidateTag_def index_def getValidationFunc_def SplitN_two

text \<open>A rule that the parser returns is one of the four rules of the library.\<close>

lemma getValidationFunc_rules:
  assumes "getValidationFunc name param = Inr f"
  shows "(\<exists>n. f = getLenValidationFunc n) \<or> (\<exists>strs. f = getInValidationFunc strs)
       \<or> (\<exists>m. f = getMinValidationFunc m) \<or> (\<exists>m. f = getMaxValidationFunc m)"
  using assms unfolding getValidationFunc_def Let_def
  by (auto split: if_splits prod.splits option.splits)

lemma parseValidateTag_rules:
  assumes "parseValidateTag tag = Inr (Inr f)"
  shows "(\<exists>n. f = getLenValidationFunc n) \<or> (\<exists>strs. f = getInValidationFunc strs)
       \<or> (\<exists>m. f = getMinValidationFunc m) \<or> (\<exists>m. f = getMaxValidationFunc m)"
proof -
  from assms obtain name param where "getValidationFunc name param = Inr f"
    unfolding parseValidateTag_def Let_def by (auto split: sum.splits)
  then show ?thesis by (rule getValidationFunc_rules)
qed

section \<open>The field validator\<close>

text \<open>
  Claim C8. A field whose annotation is empty or \<^verbatim>\<open>-\<close> leaves the aggregate as it is,
  whatever its value and whether or not it is exported: the check comes before the
  accessibility check and before the annotation is parsed.
\<close>

theorem validateField_excluded:
  assumes "Tag_Get fd tagName = [] \<or> Tag_Get fd tagName = ''-''"
  shows "validateField fd fv errs = Inr errs
    \<and> validateFields ((fd, fv) # fs) errs = validateFields fs errs"
  using assms by (auto simp: validateField_def)

theorem validateField_excluded_witness:
  "Tag_Get \<lparr>Name = ''secret'', PkgPath = ''main'', Tag = [(''json'', ''secret'')], Anonymous = False\<rparr> tagName = []
   \<and> Tag_Get \<lparr>Name = ''Skipped'', PkgPath = [], Tag = [(''validate'', ''-'')], Anonymous = False\<rparr> tagName = ''-''
   \<and> getLenValidationFunc 1 (VOther Bool) \<noteq> None
   \<and> getInValidationFunc [''1''] (VOther Bool) \<noteq> None
   \<and> getMinValidationFunc 1 (VOther Bool) \<noteq> None
   \<and> getMaxValidationFunc 1 (VOther Bool) \<noteq> None
   \<and> validateField \<lparr>Name = ''secret'', PkgPath = ''main'', Tag = [(''json'', ''secret'')], Anonymous = False\<rparr>
        (VOther Bool) [] = Inr []
   \<and> validateField \<lparr>Name = ''Skipped'', PkgPath = [], Tag = [(''validate'', ''-'')], Anonymous = False\<rparr>
        (VOther Bool) [] = Inr []
   \<and> Validate (VStruct
        [(\<lparr>Name = ''secret'', PkgPath = ''main'', Tag = [(''json'', ''secret'')], Anonymous = False\<rparr>, VOther Bool),
         (\<lparr>Name = ''Skipped'', PkgPath = [], Tag = [(''validate'', ''-'')], Anonymous = False\<rparr>, VOther Bool)])
       = Inr None"
proof -
  let ?a = "\<lparr>Name = ''secret'', PkgPath = ''main'', Tag = [(''json'', ''secret'')], Anonymous = False\<rparr>"
  let ?b = "\<lparr>Name = ''Skipped'', PkgPath = [], Tag = [(''validate'', ''-'')], Anonymous = False\<rparr>"
  have a: "Tag_Get ?a tagName = []" and b: "Tag_Get ?b tagName = ''-''"
    by (simp_all add: Tag_Get_def tagName_def)
  have r: "getLenValidationFunc 1 (VOther Bool) \<noteq> None"
    "getInValidationFunc [''1''] (VOther Bool) \<noteq> None"
    "getMinValidationFunc 1 (VOther Bool) \<noteq> None"
    "getMaxValidationFunc 1 (VOther Bool) \<noteq> None"
    by simp_all
  have fa: "validateField ?a (VOther Bool) [] = Inr []"
    "validateFields [(?a, VOther Bool), (?b, VOther Bool)] [] = validateFields [(?b, VOther Bool)] []"
    using validateField_excluded [of ?a "VOther Bool" "[]" "[(?b, VOther Bool)]"] a by simp_all
  have fb: "validateField ?b (VOther Bool) [] = Inr []"
    "validateFields [(?b, VOther Bool)] [] = Inr []"
    using validateField_excluded [of ?b "VOther Bool" "[]" "[]"] b by simp_all
  have "Validate (VStruct [(?a, VOther Bool), (?b, VOther Bool)]) = Inr None"
    using fa fb by (simp add: Validate_def)
  with a b r fa fb show ?thesis by blast
qed

text \<open>
  A field is accessible iff it is exported (its \<open>PkgPath\<close> is empty) or embedded.
\<close>

definition accessible :: "StructField \<Rightarrow> bool" where
  "accessible fd = (PkgPath fd = [] \<or> Anonymous fd)"

text \<open>
  No rule returns the error for unexported fields.
\<close>

lemma in_strings_result:
  "in_strings strs s = None \<or> in_strings strs s = Some (New ''field value is not in array from tag'')"
  by (induction strs) auto

lemma in_ints_result:
  "in_ints ins i = None \<or> in_ints ins i = Some (New ''field value is not in array from tag'')"
  by (induction ins) auto

lemma in_parse_result:
  "in_parse strs ins = Inl e \<Longrightarrow> e = ErrInvalidValidatorSyntax"
  by (induction strs arbitrary: ins) (auto split: prod.splits option.splits)

lemma rule_not_unexported:
  assumes "(\<exists>n. f = getLenValidationFunc n) \<or> (\<exists>strs. f = getInValidationFunc strs)
       \<or> (\<exists>m. f = getMinValidationFunc m) \<or> (\<exists>m. f = getMaxValidationFunc m)"
  shows "f v \<noteq> Some ErrValidateForUnexportedFields"
proof -
  have "getInValidationFunc strs v \<noteq> Some ErrValidateForUnexportedFields" for strs
  proof (cases v)
    case (VString s)
    then show ?thesis using in_strings_result [of strs s] by auto
  next
    case (VInt i)
    show ?thesis
    proof (cases "in_parse strs []")
      case (Inl e)
      then show ?thesis using VInt in_parse_result [OF Inl] by simp
    next
      case (Inr ins)
      then show ?thesis using VInt in_ints_result [of ins i] by auto
    qed
  qed simp_all
  moreover have "getLenValidationFunc n v \<noteq> Some ErrValidateForUnexportedFields" for n
    by (cases v) simp_all
  moreover have "getMinValidationFunc n v \<noteq> Some ErrValidateForUnexportedFields" for n
    by (cases v) simp_all
  moreover have "getMaxValidationFunc n v \<noteq> Some ErrValidateForUnexportedFields" for n
    by (cases v) simp_all
  ultimately show ?thesis using assms by blast
qed

lemma getValidationFunc_error:
  assumes "getValidationFunc name param = Inl e"
  shows "e = ErrInvalidValidatorSyntax"
  using assms unfolding getValidationFunc_def Let_def
  by (auto split: if_splits prod.splits option.splits)

lemma parseValidateTag_error:
  assumes "parseValidateTag tag = Inr (Inl e)"
  shows "e = ErrInvalidValidatorSyntax"
proof -
  from assms obtain name param where "getValidationFunc name param = Inl e"
    unfolding parseValidateTag_def Let_def by (auto split: sum.splits)
  then show ?thesis by (rule getValidationFunc_error)
qed

text \<open>
  Claim C7. A field with an annotation other than the empty one and \<^verbatim>\<open>-\<close> that is not
  accessible adds exactly the error for unexported fields, whatever the annotation and
  the value are: the annotation is not parsed and no rule is applied. An accessible
  field never adds that error.
\<close>

theorem validateField_unexported:
  assumes "Tag_Get fd tagName \<noteq> []" and "Tag_Get fd tagName \<noteq> ''-''"
  shows "(\<not> accessible fd \<longrightarrow>
            validateField fd fv errs = Inr (errs @ [\<lparr>Err = ErrValidateForUnexportedFields\<rparr>]))
       \<and> (accessible fd \<longrightarrow>
            validateField fd fv errs \<noteq> Inr (errs @ [\<lparr>Err = ErrValidateForUnexportedFields\<rparr>]))"
proof (intro conjI impI)
  assume "\<not> accessible fd"
  with assms show "validateField fd fv errs = Inr (errs @ [\<lparr>Err = ErrValidateForUnexportedFields\<rparr>])"
    by (simp add: validateField_def accessible_def)
next
  assume acc: "accessible fd"
  let ?tag = "Tag_Get fd tagName"
  show "validateField fd fv errs \<noteq> Inr (errs @ [\<lparr>Err = ErrValidateForUnexportedFields\<rparr>])"
  proof (cases "parseValidateTag ?tag")
    case (Inl p)
    with assms acc show ?thesis by (auto simp: validateField_def accessible_def)
  next
    case (Inr r)
    show ?thesis
    proof (cases r)
      case (Inl e)
      with Inr have "e = ErrInvalidValidatorSyntax" by (simp add: parseValidateTag_error)
      with assms acc Inr Inl show ?thesis by (auto simp: validateField_def accessible_def)
    next
      case r: (Inr f)
      with Inr have "f (deref fv) \<noteq> Some ErrValidateForUnexportedFields"
        using rule_not_unexported [OF parseValidateTag_rules] by simp
      with assms acc Inr r show ?thesis
        by (auto simp: validateField_def accessible_def split: option.splits)
    qed
  qed
qed

theorem validateField_unexported_witness:
  "\<not> accessible \<lparr>Name = ''name'', PkgPath = ''main'', Tag = [(''validate'', ''len:10'')], Anonymous = False\<rparr>
   \<and> validateField
        \<lparr>Name = ''name'', PkgPath = ''main'', Tag = [(''validate'', ''len:10'')], Anonymous = False\<rparr>
        (VString ''abc'') [] = Inr [\<lparr>Err = ErrValidateForUnexportedFields\<rparr>]
   \<and> validateField
        \<lparr>Name = ''name'', PkgPath = ''main'', Tag = [(''validate'', ''len'')], Anonymous = False\<rparr>
        (VString ''abc'') [] = Inr [\<lparr>Err = ErrValidateForUnexportedFields\<rparr>]
   \<and> accessible \<lparr>Name = ''Name'', PkgPath = [], Tag = [(''validate'', ''len:10'')], Anonymous = False\<rparr>
   \<and> validateField
        \<lparr>Name = ''Name'', PkgPath = [], Tag = [(''validate'', ''len:10'')], Anonymous = False\<rparr>
        (VString ''abc'') [] = Inr [\<lparr>Err = New ''invalid length''\<rparr>]
   \<and> accessible \<lparr>Name = ''base'', PkgPath = ''main'', Tag = [(''validate'', ''len:10'')], Anonymous = True\<rparr>
   \<and> validateField
        \<lparr>Name = ''base'', PkgPath = ''main'', Tag = [(''validate'', ''len:10'')], Anonymous = True\<rparr>
        (VString ''abc'') [] = Inr [\<lparr>Err = New ''invalid length''\<rparr>]"
proof -
  let ?u = "\<lparr>Name = ''name'', PkgPath = ''main'', Tag = [(''validate'', ''len:10'')], Anonymous = False\<rparr>"
  let ?n = "\<lparr>Name = ''name'', PkgPath = ''main'', Tag = [(''validate'', ''len'')], Anonymous = False\<rparr>"
  let ?e = "\<lparr>Name = ''Name'', PkgPath = [], Tag = [(''validate'', ''len:10'')], Anonymous = False\<rparr>"
  let ?a = "\<lparr>Name = ''base'', PkgPath = ''main'', Tag = [(''validate'', ''len:10'')], Anonymous = True\<rparr>"
  have t: "Tag_Get ?u tagName \<noteq> []" "Tag_Get ?u tagName \<noteq> ''-''"
    "Tag_Get ?n tagName \<noteq> []" "Tag_Get ?n tagName \<noteq> ''-''"
    by (simp_all add: Tag_Get_def tagName_def)
  have acc: "\<not> accessible ?u" "\<not> accessible ?n" "accessible ?e" "accessible ?a"
    by (simp_all add: accessible_def)
  have u: "validateField ?u (VString ''abc'') [] = Inr [\<lparr>Err = ErrValidateForUnexportedFields\<rparr>]"
    using validateField_unexported [of ?u "VString ''abc''" "[]"] t acc by simp
  have n: "validateField ?n (VString ''abc'') [] = Inr [\<lparr>Err = ErrValidateForUnexportedFields\<rparr>]"
    using validateField_unexported [of ?n "VString ''abc''" "[]"] t acc by simp
  have p: "parseValidateTag ''len:10'' = Inr (Inr (getLenValidationFunc 10))"
    by (simp add: tag_eval string_eval strconv_eval)
  have c: "RuneCountInString ''abc'' = 3"
    by (simp add: rune_eval)
  have e: "validateField ?e (VString ''abc'') [] = Inr [\<lparr>Err = New ''invalid length''\<rparr>]"
    using p c by (simp add: validateField_def Tag_Get_def tagName_def)
  have a: "validateField ?a (VString ''abc'') [] = Inr [\<lparr>Err = New ''invalid length''\<rparr>]"
    using p c by (simp add: validateField_def Tag_Get_def tagName_def)
  from acc u n e a show ?thesis by blast
qed

text \<open>
  Claim C1. The claim is that an annotation without a colon yields the syntax error.
  The code does not: \<^verbatim>\<open>parseValidateTag\<close> reads \<^verbatim>\<open>s[1]\<close> of a split that has one
  part only, which panics. For every accessible field whose annotation is not empty, not
  \<^verbatim>\<open>-\<close> and has no colon, \<^verbatim>\<open>validateField\<close> panics with an index out of range, and so
  does the validation of every struct that has such a field after fields that do not
  panic.
\<close>

theorem validateField_panics_without_colon:
  assumes "Tag_Get fd tagName = tag" and "tag \<noteq> []" and "tag \<noteq> ''-''"
    and "accessible fd" and "CHR '':'' \<notin> set tag"
  shows "parseValidateTag tag = Inl IndexOutOfRange
    \<and> validateField fd fv errs = Inl IndexOutOfRange
    \<and> validateFields ((fd, fv) # fs) errs = Inl IndexOutOfRange"
proof -
  have p: "parseValidateTag tag = Inl IndexOutOfRange"
    using assms(5) by (simp add: parseValidateTag_panics_iff)
  with assms have "validateField fd fv errs = Inl IndexOutOfRange"
    by (auto simp: validateField_def accessible_def)
  with p show ?thesis by simp
qed

theorem validateField_panics_without_colon_witness:
  "Tag_Get \<lparr>Name = ''Name'', PkgPath = [], Tag = [(''validate'', ''len'')], Anonymous = False\<rparr> tagName = ''len''
   \<and> accessible \<lparr>Name = ''Name'', PkgPath = [], Tag = [(''validate'', ''len'')], Anonymous = False\<rparr>
   \<and> CHR '':'' \<notin> set ''len''
   \<and> parseValidateTag ''len'' = Inl IndexOutOfRange
   \<and> parseValidateTag ''len:'' = Inr (Inl ErrInvalidValidatorSyntax)
   \<and> Validate (VStruct
        [(\<lparr>Name = ''Name'', PkgPath = [], Tag = [(''validate'', ''len'')], Anonymous = False\<rparr>,
          VString ''hello'')]) = Inl IndexOutOfRange"
proof -
  let ?fd = "\<lparr>Name = ''Name'', PkgPath = [], Tag = [(''validate'', ''len'')], Anonymous = False\<rparr>"
  have h: "Tag_Get ?fd tagName = ''len''" "''len'' \<noteq> []" "''len'' \<noteq> ''-''" "accessible ?fd"
    "CHR '':'' \<notin> set ''len''"
    by (simp_all add: Tag_Get_def tagName_def accessible_def)
  note t = validateField_panics_without_colon [OF h, of "VString ''hello''" "[]" "[]"]
  have s: "parseValidateTag ''len:'' = Inr (Inl ErrInvalidValidatorSyntax)"
    by (simp add: tag_eval string_eval)
  from t have "Validate (VStruct [(?fd, VString ''hello'')]) = Inl IndexOutOfRange"
    by (simp add: Validate_def)
  with h t s show ?thesis by blast
qed

section \<open>Nil pointers\<close>

lemma rule_on_nil_pointer:
  "getLenValidationFunc n (VPtr None) = Some (New ''invalid type of field for tag len'')"
  "getInValidationFunc strs (VPtr None) = Some (New ''invalid type of field for tag in'')"
  "getMinValidationFunc m (VPtr None) = Some (New ''invalid type of field for tag min'')"
  "getMaxValidationFunc m (VPtr None) = Some (New ''invalid type of field for tag max'')"
  by simp_all

text \<open>
  Claim C3. \<^verbatim>\<open>Validate\<close> of a nil pointer returns nil. A nil pointer that is what is
  left of the value of an annotated field, after the loop of \<^verbatim>\<open>validateField\<close> has
  followed the pointers before it, goes to the rule as it is, and each of the four rules
  answers with its error for a field of the wrong type.
\<close>

theorem nil_pointer_paths:
  "Validate (VPtr None) = Inr None
   \<and> getLenValidationFunc n (VPtr None) = Some (New ''invalid type of field for tag len'')
   \<and> getInValidationFunc strs (VPtr None) = Some (New ''invalid type of field for tag in'')
   \<and> getMinValidationFunc m (VPtr None) = Some (New ''invalid type of field for tag min'')
   \<and> getMaxValidationFunc m (VPtr None) = Some (New ''invalid type of field for tag max'')
   \<and> deref (VPtr None) = VPtr None
   \<and> deref (VPtr (Some (VPtr None))) = VPtr None
   \<and> (Tag_Get fd tagName \<noteq> [] \<and> Tag_Get fd tagName \<noteq> ''-'' \<and> accessible fd
        \<and> parseValidateTag (Tag_Get fd tagName) = Inr (Inr f) \<and> deref fv = VPtr None
      \<longrightarrow> validateField fd fv errs = Inr (errs @ [\<lparr>Err = New ''invalid type of field for tag len''\<rparr>])
        \<or> validateField fd fv errs = Inr (errs @ [\<lparr>Err = New ''invalid type of field for tag in''\<rparr>])
        \<or> validateField fd fv errs = Inr (errs @ [\<lparr>Err = New ''invalid type of field for tag min''\<rparr>])
        \<or> validateField fd fv errs = Inr (errs @ [\<lparr>Err = New ''invalid type of field for tag max''\<rparr>]))"
proof -
  have field: "validateField fd fv errs = Inr (errs @ [\<lparr>Err = New ''invalid type of field for tag len''\<rparr>])
        \<or> validateField fd fv errs = Inr (errs @ [\<lparr>Err = New ''invalid type of field for tag in''\<rparr>])
        \<or> validateField fd fv errs = Inr (errs @ [\<lparr>Err = New ''invalid type of field for tag min''\<rparr>])
        \<or> validateField fd fv errs = Inr (errs @ [\<lparr>Err = New ''invalid type of field for tag max''\<rparr>])"
    if h: "Tag_Get fd tagName \<noteq> []" "Tag_Get fd tagName \<noteq> ''-''" "accessible fd"
      "parseValidateTag (Tag_Get fd tagName) = Inr (Inr f)" "deref fv = VPtr None"
  proof -
    have v: "validateField fd fv errs =
      (case f (VPtr None) of Some err \<Rightarrow> Inr (errs @ [\<lparr>Err = err\<rparr>]) | None \<Rightarrow> Inr errs)"
      using h by (auto simp: validateField_def accessible_def)
    from parseValidateTag_rules [OF h(4)] show ?thesis
      unfolding v by (auto simp: rule_on_nil_pointer)
  qed
  have top: "Validate (VPtr None) = Inr None"
    by (simp add: Validate_def)
  from top field show ?thesis
    by (simp add: rule_on_nil_pointer)
qed

theorem nil_pointer_paths_witness:
  "Validate (VPtr None) = Inr None
   \<and> accessible \<lparr>Name = ''Age'', PkgPath = [], Tag = [(''validate'', ''min:18'')], Anonymous = False\<rparr>
   \<and> parseValidateTag ''min:18'' = Inr (Inr (getMinValidationFunc 18))
   \<and> deref (VPtr (Some (VPtr None))) = VPtr None
   \<and> validateField
        \<lparr>Name = ''Age'', PkgPath = [], Tag = [(''validate'', ''min:18'')], Anonymous = False\<rparr>
        (VPtr (Some (VPtr None))) []
       = Inr [\<lparr>Err = New ''invalid type of field for tag min''\<rparr>]
   \<and> Validate (VStruct
        [(\<lparr>Name = ''Age'', PkgPath = [], Tag = [(''validate'', ''min:18'')], Anonymous = False\<rparr>,
          VPtr None)])
       = Inr (Some [\<lparr>Err = New ''invalid type of field for tag min''\<rparr>])"
proof -
  let ?fd = "\<lparr>Name = ''Age'', PkgPath = [], Tag = [(''validate'', ''min:18'')], Anonymous = False\<rparr>"
  have g: "Tag_Get ?fd tagName = ''min:18''"
    by (simp add: Tag_Get_def tagName_def)
  have a: "accessible ?fd"
    by (simp add: accessible_def)
  have p: "parseValidateTag ''min:18'' = Inr (Inr (getMinValidationFunc 18))"
    by (simp add: tag_eval string_eval strconv_eval)
  note t = nil_pointer_paths [of 0 "[]" 0 ?fd "getMinValidationFunc 18" _ "[]"]
  have f2: "validateField ?fd (VPtr (Some (VPtr None))) [] = Inr [\<lparr>Err = New ''invalid type of field for tag min''\<rparr>]"
    using t [of "VPtr (Some (VPtr None))"] g a p by (simp add: validateField_def)
  have f1: "validateField ?fd (VPtr None) [] = Inr [\<lparr>Err = New ''invalid type of field for tag min''\<rparr>]"
    using t [of "VPtr None"] g a p by (simp add: validateField_def)
  have s: "Validate (VStruct [(?fd, VPtr None)]) = Inr (Some [\<lparr>Err = New ''invalid type of field for tag min''\<rparr>])"
    using f1 by (simp add: Validate_def)
  from t [of "VPtr None"] a p f2 s show ?thesis by simp
qed

section \<open>The \<^verbatim>\<open>in\<close> rule\<close>

lemma in_parse_bad:
  assumes "list_ex (\<lambda>str. snd (ParseInt (TrimSpace str) 0) \<noteq> None) strs"
  shows "in_parse strs ins = Inl ErrInvalidValidatorSyntax"
  using assms
  by (induction strs arbitrary: ins) (auto split: prod.splits option.splits)

lemma in_parse_good:
  assumes "\<not> list_ex (\<lambda>str. snd (ParseInt (TrimSpace str) 0) \<noteq> None) strs"
  shows "\<exists>vs. in_parse strs ins = Inr vs"
  using assms
  by (induction strs arbitrary: ins) (auto split: prod.splits option.splits)

lemma in_rule_on_int:
  "getInValidationFunc strs (VInt i) = Some ErrInvalidValidatorSyntax
   \<longleftrightarrow> list_ex (\<lambda>str. snd (ParseInt (TrimSpace str) 0) \<noteq> None) strs"
proof (cases "list_ex (\<lambda>str. snd (ParseInt (TrimSpace str) 0) \<noteq> None) strs")
  case True
  then show ?thesis by (simp add: in_parse_bad)
next
  case False
  then obtain vs where "in_parse strs [] = Inr vs"
    using in_parse_good by blast
  with False show ?thesis
    using in_ints_result [of vs i] by auto
qed

lemma SplitN_colon:
  assumes "sep \<notin> set a"
  shows "SplitN (a @ sep # b) sep 2 = [a, b]"
proof -
  have a: "\<And>x. x \<in> set a \<Longrightarrow> x \<noteq> sep"
    using assms by auto
  have "dropWhile (\<lambda>c. c \<noteq> sep) (a @ sep # b) = sep # b"
    using a by (subst dropWhile_append2) simp_all
  moreover have "takeWhile (\<lambda>c. c \<noteq> sep) (a @ sep # b) = a"
    using a by (subst takeWhile_append2) simp_all
  ultimately show ?thesis by (simp add: SplitN_two)
qed

text \<open>
  Claim C6, as the code has it. Building the \<^verbatim>\<open>in\<close> rule never fails when the trimmed
  parameter is not empty: \<^verbatim>\<open>getValidationFunc\<close> splits the parameter at the commas and
  returns the rule, without parsing an entry. The entries are parsed when the rule is
  applied to a value of kind int, each time it is applied, before the value is compared:
  the rule returns the syntax error on an int iff some trimmed entry does not parse as
  an integer in base 0, whatever the int is. So an accessible field that holds an int
  and is annotated with such a list adds the syntax error.
\<close>

theorem in_rule_parses_on_application:
  assumes "TrimSpace name = inTag" and "TrimSpace param \<noteq> []"
  shows "getValidationFunc name param
           = Inr (getInValidationFunc (Split (TrimSpace param) (CHR '','')))
    \<and> (getInValidationFunc strs (VInt i) = Some ErrInvalidValidatorSyntax
         \<longleftrightarrow> list_ex (\<lambda>str. snd (ParseInt (TrimSpace str) 0) \<noteq> None) strs)
    \<and> (Tag_Get fd tagName = name @ CHR '':'' # param \<and> CHR '':'' \<notin> set name \<and> accessible fd
         \<and> list_ex (\<lambda>str. snd (ParseInt (TrimSpace str) 0) \<noteq> None)
               (Split (TrimSpace param) (CHR '',''))
       \<longrightarrow> validateField fd (VInt i) errs = Inr (errs @ [\<lparr>Err = ErrInvalidValidatorSyntax\<rparr>]))"
proof -
  let ?strs = "Split (TrimSpace param) (CHR '','')"
  have g: "getValidationFunc name param = Inr (getInValidationFunc ?strs)"
    using assms by (simp add: getValidationFunc_def inTag_def lenTag_def)
  have f: "validateField fd (VInt i) errs = Inr (errs @ [\<lparr>Err = ErrInvalidValidatorSyntax\<rparr>])"
    if h: "Tag_Get fd tagName = name @ CHR '':'' # param" "CHR '':'' \<notin> set name" "accessible fd"
      "list_ex (\<lambda>str. snd (ParseInt (TrimSpace str) 0) \<noteq> None) ?strs"
  proof -
    have "parseValidateTag (name @ CHR '':'' # param) = Inr (Inr (getInValidationFunc ?strs))"
      using h(2) g by (simp add: parseValidateTag_def index_def SplitN_colon)
    moreover have "getInValidationFunc ?strs (VInt i) = Some ErrInvalidValidatorSyntax"
      using h(4) in_rule_on_int [of ?strs i] by blast
    moreover have "name @ CHR '':'' # param \<noteq> ''-''"
      by (cases name) auto
    ultimately show ?thesis
      using h(1,3) by (auto simp: validateField_def accessible_def)
  qed
  from g f in_rule_on_int [of strs i] show ?thesis
    by blast
qed

theorem in_rule_parses_on_application_witness:
  "TrimSpace ''in'' = inTag \<and> TrimSpace ''1,2,x'' \<noteq> []
   \<and> Split (TrimSpace ''1,2,x'') (CHR '','') = [''1'', ''2'', ''x'']
   \<and> getValidationFunc ''in'' ''1,2,x'' = Inr (getInValidationFunc [''1'', ''2'', ''x''])
   \<and> list_ex (\<lambda>str. snd (ParseInt (TrimSpace str) 0) \<noteq> None) [''1'', ''2'', ''x'']
   \<and> getInValidationFunc [''1'', ''2'', ''x''] (VInt 2) = Some ErrInvalidValidatorSyntax
   \<and> getInValidationFunc [''1'', ''2'', ''x''] (VInt 4) = Some ErrInvalidValidatorSyntax
   \<and> validateField
        \<lparr>Name = ''N'', PkgPath = [], Tag = [(''validate'', ''in:1,2,x'')], Anonymous = False\<rparr>
        (VInt 2) [] = Inr [\<lparr>Err = ErrInvalidValidatorSyntax\<rparr>]"
proof -
  let ?fd = "\<lparr>Name = ''N'', PkgPath = [], Tag = [(''validate'', ''in:1,2,x'')], Anonymous = False\<rparr>"
  have n: "TrimSpace ''in'' = inTag"
    by (simp add: string_eval inTag_def)
  have p: "TrimSpace ''1,2,x'' = ''1,2,x''"
    by (simp add: string_eval)
  have s: "Split ''1,2,x'' (CHR '','') = [''1'', ''2'', ''x'']"
    by (simp add: Split.simps)
  have t: "TrimSpace ''1'' = ''1''" "TrimSpace ''2'' = ''2''" "TrimSpace ''x'' = ''x''"
    by (simp_all add: string_eval)
  have x: "snd (ParseInt ''x'' 0) = Some ErrSyntax"
    by (simp add: strconv_eval)
  have b: "list_ex (\<lambda>str. snd (ParseInt (TrimSpace str) 0) \<noteq> None) [''1'', ''2'', ''x'']"
    using t x by simp
  have g: "Tag_Get ?fd tagName = ''in'' @ CHR '':'' # ''1,2,x''" "CHR '':'' \<notin> set ''in''"
    "accessible ?fd"
    by (simp_all add: Tag_Get_def tagName_def accessible_def)
  have ne: "TrimSpace ''1,2,x'' \<noteq> []"
    using p by simp
  have b': "list_ex (\<lambda>str. snd (ParseInt (TrimSpace str) 0) \<noteq> None)
    (Split (TrimSpace ''1,2,x'') (CHR '',''))"
    using b p s by simp
  have sp: "Split (TrimSpace ''1,2,x'') (CHR '','') = [''1'', ''2'', ''x'']"
    using p s by simp
  note th = in_rule_parses_on_application [OF n ne, of "[''1'', ''2'', ''x'']" _ ?fd "[]"]
  have c: "getValidationFunc ''in'' ''1,2,x'' = Inr (getInValidationFunc [''1'', ''2'', ''x''])"
    using th [of 2] sp by simp
  have i2: "getInValidationFunc [''1'', ''2'', ''x''] (VInt 2) = Some ErrInvalidValidatorSyntax"
    using th [of 2] b by blast
  have i4: "getInValidationFunc [''1'', ''2'', ''x''] (VInt 4) = Some ErrInvalidValidatorSyntax"
    using th [of 4] b by blast
  have f: "validateField ?fd (VInt 2) [] = Inr [\<lparr>Err = ErrInvalidValidatorSyntax\<rparr>]"
    using th [of 2] g b' by simp
  from n ne sp c b i2 i4 f show ?thesis
    by blast
qed

text \<open>
  The claim as the specification states it fails: for the parameter \<^verbatim>\<open>1,2,x\<close>, whose
  last entry is no integer, the construction of the rule succeeds, and the rule accepts
  the string \<^verbatim>\<open>x\<close>.
\<close>

theorem in_rule_construction_counterexample:
  "snd (ParseInt (TrimSpace ''x'') 0) = Some ErrSyntax
   \<and> getValidationFunc ''in'' ''1,2,x'' \<noteq> Inl ErrInvalidValidatorSyntax
   \<and> getValidationFunc ''in'' ''1,2,x'' = Inr (getInValidationFunc [''1'', ''2'', ''x''])
   \<and> getInValidationFunc [''1'', ''2'', ''x''] (VString ''x'') = None"
proof -
  have t: "TrimSpace ''1'' = ''1''" "TrimSpace ''2'' = ''2''" "TrimSpace ''x'' = ''x''"
    by (simp_all add: string_eval)
  have x: "snd (ParseInt ''x'' 0) = Some ErrSyntax"
    by (simp add: strconv_eval)
  have g: "getValidationFunc ''in'' ''1,2,x'' = Inr (getInValidationFunc [''1'', ''2'', ''x''])"
    by (simp add: getValidationFunc_def inTag_def lenTag_def string_eval)
  from t x g show ?thesis by simp
qed

end
